theory Spec2Isabelle
  imports Main "HOL-Library.Sublist"
begin

section \<open>The OSC dispatch server of \<^verbatim>\<open>abletonosc/osc_server.py\<close>\<close>

text \<open>
  The class \<^verbatim>\<open>OSCServer\<close> owns one non-blocking UDP socket and a dictionary from OSC
  addresses to handlers. Its methods are embedded as functions that take the server and
  return the updated server, paired with the exception that leaves the method, if any.

  The exception type has the classes that the source tells apart: the two codec errors,
  \<^verbatim>\<open>socket.error\<close> with its errno, every other subclass of \<^verbatim>\<open>Exception\<close>,
  and the exceptions that derive from \<^verbatim>\<open>BaseException\<close> only (\<^verbatim>\<open>SystemExit\<close>,
  \<^verbatim>\<open>KeyboardInterrupt\<close>), which an \<^verbatim>\<open>except Exception\<close> does not catch.
\<close>

subsection \<open>Data\<close>

type_synonym bytes = "char list"

type_synonym endpoint = "string \<times> int"

datatype errno = EAGAIN | EWOULDBLOCK | EBADF | Errno nat

datatype exn =
    ParseError
  | BuildError
  | SocketError errno
  | OtherError string
  | BaseException string

record 'a osc_message =
  address :: string
  params :: "'a list"

text \<open>
  A handler takes the params of a message and returns \<^verbatim>\<open>None\<close> or the params of a
  reply, or raises.
\<close>

type_synonym 'a handler = "'a list \<Rightarrow> exn + 'a list option"

text \<open>
  The codec (the package \<^verbatim>\<open>pythonosc\<close>) is not part of the sources at hand, so its
  four operations used by the server are parameters: \<^verbatim>\<open>OscMessage(data)\<close>,
  \<^verbatim>\<open>OscMessageBuilder(address)\<close>, \<^verbatim>\<open>add_arg\<close> and \<^verbatim>\<open>build().dgram\<close>. The type
  \<open>'a\<close> is the type of OSC params, \<open>'b\<close> the state of a message builder.
\<close>

record ('a, 'b) codec =
  decode :: "bytes \<Rightarrow> exn + 'a osc_message"
  new_builder :: "string \<Rightarrow> 'b"
  add_arg :: "'b \<Rightarrow> 'a \<Rightarrow> exn + 'b"
  build :: "'b \<Rightarrow> exn + bytes"

text \<open>
  The socket as the server sees it: the queue of what \<^verbatim>\<open>recvfrom\<close> will meet (a
  datagram with its source, or a failure of the socket layer), the datagrams transmitted
  so far, whether the socket is closed, and which transmissions the network layer refuses.
\<close>

datatype recv_event = Datagram bytes endpoint | RecvFailure errno

record udp_socket =
  bound_to :: endpoint
  inbox :: "recv_event list"
  outbox :: "(bytes \<times> endpoint) list"
  closed :: bool
  send_fault :: "bytes \<Rightarrow> endpoint \<Rightarrow> errno option"

datatype log_entry =
    Starting endpoint int
  | BuildErrorLog
  | UnknownAddress string
  | ParseErrorLog
  | SocketErrorLog errno
  | HandlingErrorLog exn

record 'a server =
  local_addr :: endpoint
  remote_addr :: endpoint
  response_port :: int
  sock :: udp_socket
  callbacks :: "string \<rightharpoonup> 'a handler"
  logger :: "log_entry list"

subsection \<open>The socket\<close>

text \<open>
  The socket is non-blocking: with nothing queued \<^verbatim>\<open>recvfrom\<close> raises
  \<^verbatim>\<open>socket.error\<close> with errno \<^verbatim>\<open>EAGAIN\<close>; on a closed socket every call raises
  with \<^verbatim>\<open>EBADF\<close>. A UDP payload is shorter than the buffer of 65536 bytes, so
  nothing is cut off.
\<close>

definition recvfrom :: "udp_socket \<Rightarrow> (exn + bytes \<times> endpoint) \<times> udp_socket" where
  "recvfrom k =
     (if closed k then (Inl (SocketError EBADF), k)
      else case inbox k of
             [] \<Rightarrow> (Inl (SocketError EAGAIN), k)
           | Datagram d src # q \<Rightarrow> (Inr (d, src), k\<lparr>inbox := q\<rparr>)
           | RecvFailure e # q \<Rightarrow> (Inl (SocketError e), k\<lparr>inbox := q\<rparr>))"

definition sendto :: "bytes \<Rightarrow> endpoint \<Rightarrow> udp_socket \<Rightarrow> (exn + unit) \<times> udp_socket" where
  "sendto d dst k =
     (if closed k then (Inl (SocketError EBADF), k)
      else case send_fault k d dst of
             Some e \<Rightarrow> (Inl (SocketError e), k)
           | None \<Rightarrow> (Inr (), k\<lparr>outbox := outbox k @ [(d, dst)]\<rparr>))"

subsection \<open>Construction, registry, shutdown\<close>

text \<open>
  \<^verbatim>\<open>__init__\<close>, in the order of the source: the three fields are set (the remote
  address is a pair, so taking its port cannot fail), the socket is created, which the
  operating system may refuse (\<open>socket_fault\<close>), and bound. \<^verbatim>\<open>bind\<close> raises
  \<^verbatim>\<open>OverflowError\<close> for a port outside 0..65535 before it reaches the operating
  system, which may refuse the address (\<open>bind_fault\<close>). Nothing is caught.
\<close>

definition init ::
  "errno option \<Rightarrow> (endpoint \<Rightarrow> errno option) \<Rightarrow> (bytes \<Rightarrow> endpoint \<Rightarrow> errno option) \<Rightarrow>
   endpoint \<Rightarrow> endpoint \<Rightarrow> exn + 'a server" where
  "init socket_fault bind_fault net la ra =
     (case socket_fault of
        Some e \<Rightarrow> Inl (SocketError e)
      | None \<Rightarrow>
          if snd la < 0 \<or> 65535 < snd la then Inl (OtherError ''OverflowError'')
          else case bind_fault la of
                 Some e \<Rightarrow> Inl (SocketError e)
               | None \<Rightarrow>
                   Inr \<lparr>local_addr = la, remote_addr = ra, response_port = snd ra,
                        sock = \<lparr>bound_to = la, inbox = [], outbox = [], closed = False,
                                send_fault = net\<rparr>,
                        callbacks = Map.empty,
                        logger = [Starting la (snd ra)]\<rparr>)"

definition add_handler :: "string \<Rightarrow> 'a handler \<Rightarrow> 'a server \<Rightarrow> 'a server" where
  "add_handler a h s = s\<lparr>callbacks := (callbacks s)(a \<mapsto> h)\<rparr>"

definition clear_handlers :: "'a server \<Rightarrow> 'a server" where
  "clear_handlers s = s\<lparr>callbacks := Map.empty\<rparr>"

definition shutdown :: "'a server \<Rightarrow> 'a server" where
  "shutdown s = s\<lparr>sock := (sock s)\<lparr>closed := True\<rparr>\<rparr>"

subsection \<open>The send path\<close>

text \<open>The loop \<^verbatim>\<open>for param in params: msg_builder.add_arg(param)\<close>, outside the try.\<close>

fun add_args :: "('a, 'b) codec \<Rightarrow> 'b \<Rightarrow> 'a list \<Rightarrow> exn + 'b" where
  "add_args c b [] = Inr b"
| "add_args c b (p # ps) =
     (case add_arg c b p of Inl e \<Rightarrow> Inl e | Inr b' \<Rightarrow> add_args c b' ps)"

text \<open>The body of the try of \<^verbatim>\<open>send\<close>: build, choose the destination, transmit.\<close>

definition build_and_transmit ::
  "('a, 'b) codec \<Rightarrow> 'b \<Rightarrow> endpoint option \<Rightarrow> 'a server \<Rightarrow> (exn + unit) \<times> 'a server" where
  "build_and_transmit c b dest s =
     (case build c b of
        Inl e \<Rightarrow> (Inl e, s)
      | Inr dgram \<Rightarrow>
          (let dst = (case dest of None \<Rightarrow> remote_addr s | Some d \<Rightarrow> d);
               (r, k) = sendto dgram dst (sock s)
           in (r, s\<lparr>sock := k\<rparr>)))"

text \<open>\<^verbatim>\<open>send\<close>: only \<^verbatim>\<open>BuildError\<close> is caught, and logged.\<close>

definition send ::
  "('a, 'b) codec \<Rightarrow> string \<Rightarrow> 'a list \<Rightarrow> endpoint option \<Rightarrow> 'a server \<Rightarrow>
   (exn + unit) \<times> 'a server" where
  "send c a ps dest s =
     (case add_args c (new_builder c a) ps of
        Inl e \<Rightarrow> (Inl e, s)
      | Inr b \<Rightarrow>
          (let (r, s') = build_and_transmit c b dest s
           in if r = Inl BuildError
              then (Inr (), s'\<lparr>logger := logger s' @ [BuildErrorLog]\<rparr>)
              else (r, s')))"

subsection \<open>The receive and dispatch loop\<close>

text \<open>The body of the inner try of \<^verbatim>\<open>process\<close>, for one received datagram.\<close>

definition dispatch ::
  "('a, 'b) codec \<Rightarrow> bytes \<Rightarrow> endpoint \<Rightarrow> 'a server \<Rightarrow> (exn + unit) \<times> 'a server" where
  "dispatch c data src s =
     (case decode c data of
        Inl e \<Rightarrow> (Inl e, s)
      | Inr message \<Rightarrow>
          (case callbacks s (address message) of
             Some callback \<Rightarrow>
               (case callback (params message) of
                  Inl e \<Rightarrow> (Inl e, s)
                | Inr None \<Rightarrow> (Inr (), s)
                | Inr (Some rv) \<Rightarrow>
                    send c (address message) rv (Some (fst src, response_port s)) s)
           | None \<Rightarrow>
               (Inr (), s\<lparr>logger := logger s @ [UnknownAddress (address message)]\<rparr>)))"

text \<open>The inner try with its \<^verbatim>\<open>except ParseError\<close>.\<close>

definition handle_datagram ::
  "('a, 'b) codec \<Rightarrow> bytes \<Rightarrow> endpoint \<Rightarrow> 'a server \<Rightarrow> (exn + unit) \<times> 'a server" where
  "handle_datagram c data src s =
     (let (r, s') = dispatch c data src s
      in if r = Inl ParseError
         then (Inr (), s'\<lparr>logger := logger s' @ [ParseErrorLog]\<rparr>)
         else (r, s'))"

lemma sendto_inbox: "inbox (snd (sendto d dst k)) = inbox k"
  by (simp add: sendto_def split: option.splits)

lemma send_inbox: "inbox (sock (snd (send c a ps dest s))) = inbox (sock s)"
  by (simp add: send_def build_and_transmit_def sendto_def Let_def
        split: sum.splits option.splits prod.splits)

lemma dispatch_inbox: "inbox (sock (snd (dispatch c data src s))) = inbox (sock s)"
  by (simp add: dispatch_def send_inbox split: sum.splits option.splits)

lemma handle_datagram_inbox:
  "inbox (sock (snd (handle_datagram c data src s))) = inbox (sock s)"
proof (cases "dispatch c data src s")
  case (Pair r s')
  with dispatch_inbox [of c data src s] show ?thesis
    by (simp add: handle_datagram_def)
qed

lemma recvfrom_inbox:
  "recvfrom k = (Inr x, k') \<Longrightarrow> length (inbox k') < length (inbox k)"
  by (auto simp: recvfrom_def split: if_splits list.splits recv_event.splits)

text \<open>
  \<^verbatim>\<open>while True\<close>: the loop has no exit but an exception, so it returns the exception
  that ends it, with the server as it is then.
\<close>

function drain :: "('a, 'b) codec \<Rightarrow> 'a server \<Rightarrow> exn \<times> 'a server" where
  "drain c s =
     (case recvfrom (sock s) of
        (Inl e, k) \<Rightarrow> (e, s\<lparr>sock := k\<rparr>)
      | (Inr (data, src), k) \<Rightarrow>
          (case handle_datagram c data src (s\<lparr>sock := k\<rparr>) of
             (Inl e, s') \<Rightarrow> (e, s')
           | (Inr u, s') \<Rightarrow> drain c s'))"
  by pat_completeness auto
termination
proof (relation "measure (\<lambda>(c, s). length (inbox (sock s)))")
  show "wf (measure (\<lambda>(c, s). length (inbox (sock s))))" by simp
next
  fix c :: "('a, 'b) codec" and s :: "'a server" and x k y data src z s' u
  assume r: "(x, k) = recvfrom (sock s)" "x = Inr y" "(data, src) = y"
    and h: "(z, s') = handle_datagram c data src (s\<lparr>sock := k\<rparr>)" "z = Inr u"
  from r have "length (inbox k) < length (inbox (sock s))"
    using recvfrom_inbox [of "sock s" y k] by simp
  moreover from h have "inbox (sock s') = inbox k"
    using handle_datagram_inbox [of c data src "s\<lparr>sock := k\<rparr>"]
    by (metis select_convs(4) snd_conv surjective update_convs(4))
  ultimately show "((c, s'), (c, s)) \<in> measure (\<lambda>(c, s). length (inbox (sock s)))"
    by simp
qed

declare drain.simps [simp del]

text \<open>
  \<^verbatim>\<open>process\<close>: the two handlers of the outer try. Both return normally; a would-block
  errno is not logged. An exception that is neither a \<^verbatim>\<open>socket.error\<close> nor an
  \<^verbatim>\<open>Exception\<close> meets no handler and leaves the method.
\<close>

definition process :: "('a, 'b) codec \<Rightarrow> 'a server \<Rightarrow> (exn + unit) \<times> 'a server" where
  "process c s =
     (let (e, s') = drain c s
      in case e of
           SocketError n \<Rightarrow>
             if n = EAGAIN \<or> n = EWOULDBLOCK then (Inr (), s')
             else (Inr (), s'\<lparr>logger := logger s' @ [SocketErrorLog n]\<rparr>)
         | BaseException x \<Rightarrow> (Inl e, s')
         | _ \<Rightarrow> (Inr (), s'\<lparr>logger := logger s' @ [HandlingErrorLog e]\<rparr>))"

text \<open>
  What \<^verbatim>\<open>send\<close> hands to the socket for an address and params: the builder is made
  for the address, takes every param, and is built.
\<close>

definition encode :: "('a, 'b) codec \<Rightarrow> string \<Rightarrow> 'a list \<Rightarrow> exn + bytes" where
  "encode c a ps =
     (case add_args c (new_builder c a) ps of Inl e \<Rightarrow> Inl e | Inr b \<Rightarrow> build c b)"

text \<open>The environment's step: a datagram, or a failure, reaches the socket.\<close>

definition arrive :: "recv_event \<Rightarrow> 'a server \<Rightarrow> 'a server" where
  "arrive ev s = s\<lparr>sock := (sock s)\<lparr>inbox := inbox (sock s) @ [ev]\<rparr>\<rparr>"

subsection \<open>A small codec, handlers and servers for the examples\<close>

text \<open>
  The example codec reads the address of a datagram (up to the comma that starts the type
  tags) and writes an address followed by the type tags of the params. A param of kind
  \<open>Opaque\<close> stands for a Python value without an OSC type: as in the codec of the
  repository, \<open>add_arg\<close> cannot infer a type for it and raises \<^verbatim>\<open>ValueError\<close>, and
  \<open>build\<close> raises \<^verbatim>\<open>BuildError\<close> for an empty address and for a builder that
  holds a param it cannot write.
\<close>

datatype osc_arg = IntArg int | StrArg string | Opaque

fun type_tag :: "osc_arg \<Rightarrow> char" where
  "type_tag (IntArg i) = CHR ''i''"
| "type_tag (StrArg s) = CHR ''s''"
| "type_tag Opaque = CHR ''?''"

definition demo_codec :: "(osc_arg, string \<times> osc_arg list) codec" where
  "demo_codec =
     \<lparr>decode = (\<lambda>d. case d of
                    [] \<Rightarrow> Inl ParseError
                  | x # xs \<Rightarrow>
                      if x = CHR ''/''
                      then Inr \<lparr>address = takeWhile (\<lambda>y. y \<noteq> CHR '','') d, params = []\<rparr>
                      else Inl ParseError),
      new_builder = (\<lambda>a. (a, [])),
      add_arg = (\<lambda>(a, args) v.
                   if v = Opaque then Inl (OtherError ''ValueError'')
                   else Inr (a, args @ [v])),
      build = (\<lambda>(a, args).
                 if a = [] \<or> Opaque \<in> set args then Inl BuildError
                 else Inr (a @ '','' @ map type_tag args))\<rparr>"

definition demo_server :: "osc_arg server" where
  "demo_server =
     \<lparr>local_addr = (''0.0.0.0'', 11000), remote_addr = (''127.0.0.1'', 11001),
      response_port = 11001,
      sock = \<lparr>bound_to = (''0.0.0.0'', 11000), inbox = [], outbox = [], closed = False,
              send_fault = (\<lambda>d dst. None)\<rparr>,
      callbacks = Map.empty,
      logger = [Starting (''0.0.0.0'', 11000) 11001]\<rparr>"

definition faulty :: "osc_arg handler" where
  "faulty ps = Inl (OtherError ''ZeroDivisionError'')"

definition ping :: "osc_arg handler" where
  "ping ps = Inr (Some [StrArg ''pong''])"

text \<open>A handler that ends the interpreter: \<^verbatim>\<open>sys.exit()\<close> raises \<^verbatim>\<open>SystemExit\<close>.\<close>

definition exiting :: "osc_arg handler" where
  "exiting ps = Inl (BaseException ''SystemExit'')"

definition quiet :: "osc_arg handler" where
  "quiet ps = Inr None"

definition empty_reply :: "osc_arg handler" where
  "empty_reply ps = Inr (Some [])"

text \<open>The handler of the reply \<^verbatim>\<open>(1, 2)\<close>.\<close>

definition one_two :: "osc_arg handler" where
  "one_two ps = Inr (Some [IntArg 1, IntArg 2])"

text \<open>A server whose network refuses every datagram (errno 101, network unreachable).\<close>

definition unreachable :: "osc_arg server" where
  "unreachable = demo_server\<lparr>sock := (sock demo_server)\<lparr>send_fault := (\<lambda>d dst. Some (Errno 101))\<rparr>\<rparr>"

text \<open>
  Two datagrams wait on the socket: the handler of the first raises, the handler of the
  second answers.
\<close>

definition two_queued :: "osc_arg server" where
  "two_queued =
     arrive (Datagram ''/b'' (''1.2.3.4'', 55000))
       (arrive (Datagram ''/a'' (''1.2.3.4'', 55000))
          (add_handler ''/b'' ping (add_handler ''/a'' faulty demo_server)))"

section \<open>Properties\<close>

subsection \<open>One turn of the loop\<close>

lemma drain_closed:
  "closed (sock s) \<Longrightarrow> drain c s = (SocketError EBADF, s)"
  by (subst drain.simps) (simp add: recvfrom_def)

lemma drain_empty:
  "\<not> closed (sock s) \<Longrightarrow> inbox (sock s) = [] \<Longrightarrow> drain c s = (SocketError EAGAIN, s)"
  by (subst drain.simps) (simp add: recvfrom_def)

lemma drain_failure:
  "\<not> closed (sock s) \<Longrightarrow> inbox (sock s) = RecvFailure n # q \<Longrightarrow>
   drain c s = (SocketError n, s\<lparr>sock := (sock s)\<lparr>inbox := q\<rparr>\<rparr>)"
  by (subst drain.simps) (simp add: recvfrom_def)

lemma drain_datagram:
  "\<not> closed (sock s) \<Longrightarrow> inbox (sock s) = Datagram d src # q \<Longrightarrow>
   drain c s =
     (case handle_datagram c d src (s\<lparr>sock := (sock s)\<lparr>inbox := q\<rparr>\<rparr>) of
        (Inl e, s') \<Rightarrow> (e, s')
      | (Inr u, s') \<Rightarrow> drain c s')"
  by (subst drain.simps) (simp add: recvfrom_def)

lemma drain_continues:
  assumes "\<not> closed (sock s)" and "inbox (sock s) = Datagram d src # q"
    and "handle_datagram c d src (s\<lparr>sock := (sock s)\<lparr>inbox := q\<rparr>\<rparr>) = (Inr u, s')"
  shows "drain c s = drain c s'"
  using assms by (simp add: drain_datagram)

lemma drain_stops:
  assumes "\<not> closed (sock s)" and "inbox (sock s) = Datagram d src # q"
    and "handle_datagram c d src (s\<lparr>sock := (sock s)\<lparr>inbox := q\<rparr>\<rparr>) = (Inl e, s')"
  shows "drain c s = (e, s')"
  using assms by (simp add: drain_datagram)

lemma process_continues:
  assumes "\<not> closed (sock s)" and "inbox (sock s) = Datagram d src # q"
    and "handle_datagram c d src (s\<lparr>sock := (sock s)\<lparr>inbox := q\<rparr>\<rparr>) = (Inr u, s')"
  shows "process c s = process c s'"
  using drain_continues [OF assms] by (simp add: process_def)

text \<open>
  A property that every turn of the loop keeps, and that taking the head off the queue
  keeps, holds when the loop ends.
\<close>

lemma drain_invariant:
  assumes step: "\<And>d src s. I s \<Longrightarrow> I (snd (handle_datagram c d src s))"
    and pop: "\<And>s ev q. I s \<Longrightarrow> inbox (sock s) = ev # q \<Longrightarrow>
                I (s\<lparr>sock := (sock s)\<lparr>inbox := q\<rparr>\<rparr>)"
  shows "I s \<Longrightarrow> I (snd (drain c s))"
proof (induction "inbox (sock s)" arbitrary: s)
  case Nil
  then show ?case
    by (cases "closed (sock s)") (simp_all add: drain_closed drain_empty)
next
  case (Cons ev q)
  show ?case
  proof (cases "closed (sock s)")
    case True
    with Cons.prems show ?thesis by (simp add: drain_closed)
  next
    case False
    let ?s = "s\<lparr>sock := (sock s)\<lparr>inbox := q\<rparr>\<rparr>"
    have popped: "I ?s" using Cons.prems Cons.hyps(2) [symmetric] by (rule pop)
    show ?thesis
    proof (cases ev)
      case (RecvFailure n)
      with False Cons.hyps(2) [symmetric] popped show ?thesis
        by (simp add: drain_failure)
    next
      case (Datagram d src)
      obtain r s' where h: "handle_datagram c d src ?s = (r, s')"
        by (cases "handle_datagram c d src ?s")
      have kept: "I s'" using step [OF popped, of d src] h by simp
      have queue: "q = inbox (sock s')"
        using handle_datagram_inbox [of c d src ?s] h by simp
      show ?thesis
      proof (cases r)
        case (Inl e)
        with False Cons.hyps(2) [symmetric] Datagram h kept show ?thesis
          by (simp add: drain_datagram)
      next
        case (Inr u)
        with False Cons.hyps(2) [symmetric] Datagram h
        have "drain c s = drain c s'" by (simp add: drain_datagram)
        with Cons.hyps(1) [OF queue kept] show ?thesis by simp
      qed
    qed
  qed
qed

lemma process_invariant:
  assumes step: "\<And>d src s. I s \<Longrightarrow> I (snd (handle_datagram c d src s))"
    and pop: "\<And>s ev q. I s \<Longrightarrow> inbox (sock s) = ev # q \<Longrightarrow>
                I (s\<lparr>sock := (sock s)\<lparr>inbox := q\<rparr>\<rparr>)"
    and log: "\<And>s x. I s \<Longrightarrow> I (s\<lparr>logger := logger s @ [x]\<rparr>)"
  shows "I s \<Longrightarrow> I (snd (process c s))"
proof -
  assume init: "I s"
  have d: "I (snd (drain c s))"
  proof (rule drain_invariant)
    show "\<And>d src s. I s \<Longrightarrow> I (snd (handle_datagram c d src s))" by (rule step)
    show "\<And>s ev q. I s \<Longrightarrow> inbox (sock s) = ev # q \<Longrightarrow>
            I (s\<lparr>sock := (sock s)\<lparr>inbox := q\<rparr>\<rparr>)" by (rule pop)
    show "I s" by (rule init)
  qed
  obtain e s' where r: "drain c s = (e, s')" by (cases "drain c s")
  with d have "I s'" by simp
  then show ?thesis
    using r by (cases e) (simp_all add: process_def log)
qed

subsection \<open>What the operations leave alone\<close>

lemma send_frame:
  "local_addr (snd (send c a ps dest s)) = local_addr s \<and>
   remote_addr (snd (send c a ps dest s)) = remote_addr s \<and>
   response_port (snd (send c a ps dest s)) = response_port s \<and>
   callbacks (snd (send c a ps dest s)) = callbacks s"
  by (auto simp: send_def build_and_transmit_def Let_def
        split: sum.splits option.splits prod.splits)

lemma dispatch_frame:
  "local_addr (snd (dispatch c d src s)) = local_addr s \<and>
   remote_addr (snd (dispatch c d src s)) = remote_addr s \<and>
   response_port (snd (dispatch c d src s)) = response_port s \<and>
   callbacks (snd (dispatch c d src s)) = callbacks s"
  by (simp add: dispatch_def send_frame split: sum.splits option.splits)

lemma handle_datagram_frame:
  "local_addr (snd (handle_datagram c d src s)) = local_addr s \<and>
   remote_addr (snd (handle_datagram c d src s)) = remote_addr s \<and>
   response_port (snd (handle_datagram c d src s)) = response_port s \<and>
   callbacks (snd (handle_datagram c d src s)) = callbacks s"
proof (cases "dispatch c d src s")
  case (Pair r s')
  with dispatch_frame [of c d src s] show ?thesis
    by (simp add: handle_datagram_def)
qed

lemma process_frame:
  "local_addr (snd (process c s)) = local_addr s \<and>
   remote_addr (snd (process c s)) = remote_addr s \<and>
   response_port (snd (process c s)) = response_port s \<and>
   callbacks (snd (process c s)) = callbacks s"
proof -
  let ?I = "\<lambda>t::'a server. local_addr t = local_addr s \<and> remote_addr t = remote_addr s \<and>
                 response_port t = response_port s \<and> callbacks t = callbacks s"
  have "?I (snd (process c s))"
  proof (rule process_invariant [where I = ?I])
    fix d src and t :: "'a server"
    assume "?I t"
    with handle_datagram_frame [of c d src t]
    show "?I (snd (handle_datagram c d src t))" by simp
  qed simp_all
  then show ?thesis .
qed

subsection \<open>What is transmitted\<close>

lemma sendto_outbox:
  "outbox (snd (sendto d dst k)) =
     outbox k @ (if \<not> closed k \<and> send_fault k d dst = None then [(d, dst)] else [])"
  by (simp add: sendto_def split: option.splits)

lemma send_outbox:
  "outbox (sock (snd (send c a ps dest s))) =
     outbox (sock s) @
     (case encode c a ps of
        Inl e \<Rightarrow> []
      | Inr d \<Rightarrow>
          (let dst = (case dest of None \<Rightarrow> remote_addr s | Some x \<Rightarrow> x)
           in if \<not> closed (sock s) \<and> send_fault (sock s) d dst = None then [(d, dst)] else []))"
  by (auto simp: send_def encode_def build_and_transmit_def sendto_def Let_def
        split: sum.splits option.splits prod.splits)

lemma dispatch_outbox:
  assumes "decode c data = Inr m" and "callbacks s (address m) = Some h"
    and "h (params m) = Inr r"
  shows "outbox (sock (snd (dispatch c data src s))) =
     outbox (sock s) @
     (case r of
        None \<Rightarrow> []
      | Some rv \<Rightarrow>
          (case encode c (address m) rv of
             Inl e \<Rightarrow> []
           | Inr d \<Rightarrow>
               if \<not> closed (sock s) \<and> send_fault (sock s) d (fst src, response_port s) = None
               then [(d, (fst src, response_port s))] else []))"
  using assms by (simp add: dispatch_def send_outbox Let_def split: option.splits sum.splits)

lemma handle_datagram_snd:
  "outbox (sock (snd (handle_datagram c data src s))) = outbox (sock (snd (dispatch c data src s))) \<and>
   closed (sock (snd (handle_datagram c data src s))) = closed (sock (snd (dispatch c data src s)))"
  by (cases "dispatch c data src s") (simp add: handle_datagram_def)

lemma send_closed: "closed (sock (snd (send c a ps dest s))) = closed (sock s)"
  by (auto simp: send_def build_and_transmit_def sendto_def Let_def
        split: sum.splits option.splits prod.splits)

lemma handle_datagram_closed:
  "closed (sock (snd (handle_datagram c data src s))) = closed (sock s)"
  by (simp add: handle_datagram_snd dispatch_def send_closed split: sum.splits option.splits)

lemma handle_datagram_outbox:
  assumes "decode c data = Inr m" and "callbacks s (address m) = Some h"
    and "h (params m) = Inr r"
  shows "outbox (sock (snd (handle_datagram c data src s))) =
     outbox (sock s) @
     (case r of
        None \<Rightarrow> []
      | Some rv \<Rightarrow>
          (case encode c (address m) rv of
             Inl e \<Rightarrow> []
           | Inr d \<Rightarrow>
               if \<not> closed (sock s) \<and> send_fault (sock s) d (fst src, response_port s) = None
               then [(d, (fst src, response_port s))] else []))"
  using dispatch_outbox [OF assms] by (simp add: handle_datagram_snd)

lemma dispatch_port:
  "\<exists>more. outbox (sock (snd (dispatch c data src s))) = outbox (sock s) @ more \<and>
          (\<forall>x\<in>set more. snd (snd x) = response_port s)"
  by (auto simp: dispatch_def send_outbox Let_def split: sum.splits option.splits)

lemma handle_datagram_port:
  "\<exists>more. outbox (sock (snd (handle_datagram c data src s))) = outbox (sock s) @ more \<and>
          (\<forall>x\<in>set more. snd (snd x) = response_port s)"
  using dispatch_port [of c data src s] by (simp add: handle_datagram_snd)

lemma process_port:
  "\<exists>more. outbox (sock (snd (process c s))) = outbox (sock s) @ more \<and>
          (\<forall>x\<in>set more. snd (snd x) = response_port s)"
proof -
  let ?I = "\<lambda>t::'a server. response_port t = response_port s \<and>
              (\<exists>more. outbox (sock t) = outbox (sock s) @ more \<and>
                      (\<forall>x\<in>set more. snd (snd x) = response_port s))"
  have "?I (snd (process c s))"
  proof (rule process_invariant [where I = ?I])
    fix d src and t :: "'a server"
    assume t: "?I t"
    then obtain m1 where m1: "outbox (sock t) = outbox (sock s) @ m1"
        "\<forall>x\<in>set m1. snd (snd x) = response_port s" by blast
    obtain m2 where m2: "outbox (sock (snd (handle_datagram c d src t))) = outbox (sock t) @ m2"
        "\<forall>x\<in>set m2. snd (snd x) = response_port t"
      using handle_datagram_port [of c d src t] by blast
    have "outbox (sock (snd (handle_datagram c d src t))) = outbox (sock s) @ (m1 @ m2)"
      using m1 m2 by simp
    moreover have "\<forall>x\<in>set (m1 @ m2). snd (snd x) = response_port s"
      using m1 m2 t by auto
    moreover have "response_port (snd (handle_datagram c d src t)) = response_port s"
      using handle_datagram_frame [of c d src t] t by simp
    ultimately show "?I (snd (handle_datagram c d src t))"
      by (intro conjI exI [of _ "m1 @ m2"])
  qed simp_all
  then show ?thesis by simp
qed

lemma dispatch_source_port:
  "dispatch c data (host, sport) s = dispatch c data (host, sport') s"
  by (simp add: dispatch_def split: sum.splits option.splits)

lemma handle_datagram_source_port:
  "handle_datagram c data (host, sport) s = handle_datagram c data (host, sport') s"
  by (simp add: handle_datagram_def dispatch_source_port [of c data host sport s sport'])

lemma process_single:
  assumes "\<not> closed (sock s)" and "inbox (sock s) = [Datagram data src]"
  shows "outbox (sock (snd (process c s))) =
         outbox (sock (snd (handle_datagram c data src (s\<lparr>sock := (sock s)\<lparr>inbox := []\<rparr>\<rparr>))))"
proof -
  let ?s = "s\<lparr>sock := (sock s)\<lparr>inbox := []\<rparr>\<rparr>"
  obtain r s1 where h: "handle_datagram c data src ?s = (r, s1)"
    by (cases "handle_datagram c data src ?s")
  show ?thesis
  proof (cases r)
    case (Inl e)
    with h have "drain c s = (e, s1)"
      using drain_stops [OF assms] by simp
    then have "outbox (sock (snd (process c s))) = outbox (sock s1)"
      by (cases e) (simp_all add: process_def)
    with h show ?thesis by simp
  next
    case (Inr u)
    with h have p: "process c s = process c s1"
      using process_continues [OF assms] by simp
    have "\<not> closed (sock s1)"
      using handle_datagram_closed [of c data src ?s] h assms(1) by simp
    moreover have "inbox (sock s1) = []"
      using handle_datagram_inbox [of c data src ?s] h by simp
    ultimately have "process c s1 = (Inr (), s1)"
      by (simp add: process_def drain_empty)
    with p h show ?thesis by simp
  qed
qed

subsection \<open>Which exceptions end the loop\<close>

lemma add_args_exception:
  assumes "\<And>b p x. add_arg c b p \<noteq> Inl (BaseException x)"
  shows "add_args c b ps \<noteq> Inl (BaseException x)"
  using assms by (induction ps arbitrary: b) (auto split: sum.splits)

lemma send_exception:
  assumes "\<And>b p x. add_arg c b p \<noteq> Inl (BaseException x)"
    and "\<And>b x. build c b \<noteq> Inl (BaseException x)"
  shows "fst (send c a ps dest s) \<noteq> Inl (BaseException x)"
  using add_args_exception [of c "new_builder c a" ps x, OF assms(1)] assms(2)
  by (auto simp: send_def build_and_transmit_def sendto_def Let_def
        split: sum.splits option.splits prod.splits if_splits)

lemma handle_datagram_exception:
  assumes "\<And>d x. decode c d \<noteq> Inl (BaseException x)"
    and "\<And>b p x. add_arg c b p \<noteq> Inl (BaseException x)"
    and "\<And>b x. build c b \<noteq> Inl (BaseException x)"
    and "\<And>h ps x. h \<in> ran (callbacks s) \<Longrightarrow> h ps \<noteq> Inl (BaseException x)"
  shows "fst (handle_datagram c data src s) \<noteq> Inl (BaseException x)"
proof -
  have "fst (dispatch c data src s) \<noteq> Inl (BaseException x)"
    using assms(1) [of data x] assms(4) send_exception [OF assms(2,3)]
    by (auto simp: dispatch_def ran_def split: sum.splits option.splits)
  then show ?thesis
    by (cases "dispatch c data src s") (auto simp: handle_datagram_def)
qed

text \<open>
  The loop ends with an exception that a turn raised, or with a socket error of
  \<^verbatim>\<open>recvfrom\<close>.
\<close>

lemma drain_ends:
  assumes step: "\<And>d src s. I s \<Longrightarrow>
      I (snd (handle_datagram c d src s)) \<and>
      (\<forall>e. fst (handle_datagram c d src s) = Inl e \<longrightarrow> P e)"
    and pop: "\<And>s ev q. I s \<Longrightarrow> inbox (sock s) = ev # q \<Longrightarrow>
                I (s\<lparr>sock := (sock s)\<lparr>inbox := q\<rparr>\<rparr>)"
    and sock: "\<And>n. P (SocketError n)"
  shows "I s \<Longrightarrow> P (fst (drain c s))"
proof (induction "inbox (sock s)" arbitrary: s)
  case Nil
  then show ?case
    by (cases "closed (sock s)") (simp_all add: drain_closed drain_empty sock)
next
  case (Cons ev q)
  show ?case
  proof (cases "closed (sock s)")
    case True
    then show ?thesis by (simp add: drain_closed sock)
  next
    case False
    let ?s = "s\<lparr>sock := (sock s)\<lparr>inbox := q\<rparr>\<rparr>"
    have popped: "I ?s" using Cons.prems Cons.hyps(2) [symmetric] by (rule pop)
    show ?thesis
    proof (cases ev)
      case (RecvFailure n)
      with False Cons.hyps(2) [symmetric] show ?thesis
        by (simp add: drain_failure sock)
    next
      case (Datagram d src)
      obtain r s' where h: "handle_datagram c d src ?s = (r, s')"
        by (cases "handle_datagram c d src ?s")
      have kept: "I s'" using step [OF popped, of d src] h by simp
      have queue: "q = inbox (sock s')"
        using handle_datagram_inbox [of c d src ?s] h by simp
      show ?thesis
      proof (cases r)
        case (Inl e)
        then have "P e" using step [OF popped, of d src] h by simp
        with Inl False Cons.hyps(2) [symmetric] Datagram h show ?thesis
          by (simp add: drain_datagram)
      next
        case (Inr u)
        with False Cons.hyps(2) [symmetric] Datagram h
        have "drain c s = drain c s'" by (simp add: drain_datagram)
        with Cons.hyps(1) [OF queue kept] show ?thesis by simp
      qed
    qed
  qed
qed

lemma drain_exception:
  assumes "\<And>d x. decode c d \<noteq> Inl (BaseException x)"
    and "\<And>b p x. add_arg c b p \<noteq> Inl (BaseException x)"
    and "\<And>b x. build c b \<noteq> Inl (BaseException x)"
    and "\<And>h ps x. h \<in> ran (callbacks s) \<Longrightarrow> h ps \<noteq> Inl (BaseException x)"
  shows "fst (drain c s) \<noteq> BaseException x"
proof -
  let ?I = "\<lambda>t::'a server. callbacks t = callbacks s"
  let ?P = "\<lambda>e. \<forall>x. e \<noteq> BaseException x"
  have "?P (fst (drain c s))"
  proof (rule drain_ends [where I = ?I and P = ?P])
    fix d src and t :: "'a server"
    assume t: "?I t"
    have "\<And>x. fst (handle_datagram c d src t) \<noteq> Inl (BaseException x)"
      by (rule handle_datagram_exception [OF assms(1,2,3)]) (simp add: t assms(4))
    then show "?I (snd (handle_datagram c d src t)) \<and>
        (\<forall>e. fst (handle_datagram c d src t) = Inl e \<longrightarrow> ?P e)"
      using handle_datagram_frame [of c d src t] t by auto
  qed simp_all
  then show ?thesis by simp
qed

subsection \<open>What a pass adds\<close>

lemma send_grows:
  "prefix (logger s) (logger (snd (send c a ps dest s))) \<and>
   prefix (outbox (sock s)) (outbox (sock (snd (send c a ps dest s))))"
  by (auto simp: send_def build_and_transmit_def sendto_def Let_def
        split: sum.splits option.splits prod.splits)

lemma dispatch_grows:
  "prefix (logger s) (logger (snd (dispatch c d src s))) \<and>
   prefix (outbox (sock s)) (outbox (sock (snd (dispatch c d src s))))"
  by (simp add: dispatch_def send_grows split: sum.splits option.splits)

lemma handle_datagram_grows:
  "prefix (logger s) (logger (snd (handle_datagram c d src s))) \<and>
   prefix (outbox (sock s)) (outbox (sock (snd (handle_datagram c d src s))))"
proof (cases "dispatch c d src s")
  case (Pair r s')
  with dispatch_grows [of s c d src] show ?thesis
    by (auto simp: handle_datagram_def prefix_def)
qed

lemma process_grows:
  "prefix (logger s) (logger (snd (process c s))) \<and>
   prefix (outbox (sock s)) (outbox (sock (snd (process c s)))) \<and>
   suffix (inbox (sock (snd (process c s)))) (inbox (sock s))"
proof -
  let ?I = "\<lambda>t::'a server. prefix (logger s) (logger t) \<and>
              prefix (outbox (sock s)) (outbox (sock t)) \<and>
              suffix (inbox (sock t)) (inbox (sock s))"
  have "?I (snd (process c s))"
  proof (rule process_invariant [where I = ?I])
    fix d src and t :: "'a server"
    assume t: "?I t"
    with handle_datagram_grows [of t c d src] handle_datagram_inbox [of c d src t]
    show "?I (snd (handle_datagram c d src t))"
      by (auto intro: prefix_order.trans)
  next
    fix t :: "'a server" and ev q
    assume "?I t" and "inbox (sock t) = ev # q"
    then show "?I (t\<lparr>sock := (sock t)\<lparr>inbox := q\<rparr>\<rparr>)"
      by (auto dest: suffix_ConsD)
  next
    fix t :: "'a server" and x
    assume "?I t"
    then show "?I (t\<lparr>logger := logger t @ [x]\<rparr>)"
      by (auto simp: prefix_def)
  qed simp
  then show ?thesis .
qed

text \<open>
  A pass that starts with a datagram at the head of the queue hands it to
  \<^verbatim>\<open>handle_datagram\<close>: the log and the outbox of the result extend what that turn
  leaves, and the queue of the result is what is left of the rest.
\<close>

lemma process_first:
  assumes "\<not> closed (sock s)" and "inbox (sock s) = Datagram d src # q"
  shows "prefix (logger (snd (handle_datagram c d src (s\<lparr>sock := (sock s)\<lparr>inbox := q\<rparr>\<rparr>))))
           (logger (snd (process c s))) \<and>
         prefix (outbox (sock (snd (handle_datagram c d src (s\<lparr>sock := (sock s)\<lparr>inbox := q\<rparr>\<rparr>)))))
           (outbox (sock (snd (process c s)))) \<and>
         suffix (inbox (sock (snd (process c s)))) q"
proof -
  let ?s = "s\<lparr>sock := (sock s)\<lparr>inbox := q\<rparr>\<rparr>"
  obtain r s1 where h: "handle_datagram c d src ?s = (r, s1)"
    by (cases "handle_datagram c d src ?s")
  have q1: "inbox (sock s1) = q"
    using handle_datagram_inbox [of c d src ?s] h by simp
  show ?thesis
  proof (cases r)
    case (Inl e)
    with h have "drain c s = (e, s1)"
      using drain_stops [OF assms] by simp
    then have "prefix (logger s1) (logger (snd (process c s))) \<and>
        outbox (sock (snd (process c s))) = outbox (sock s1) \<and>
        inbox (sock (snd (process c s))) = inbox (sock s1)"
      by (cases e) (simp_all add: process_def)
    with h q1 show ?thesis by simp
  next
    case (Inr u)
    with h have "process c s = process c s1"
      using process_continues [OF assms] by simp
    with process_grows [of s1 c] h q1 show ?thesis by simp
  qed
qed

lemma process_pops:
  assumes "\<not> closed (sock s)"
  shows "suffix (inbox (sock (snd (process c s)))) (tl (inbox (sock s)))"
proof (cases "inbox (sock s)")
  case Nil
  with assms show ?thesis by (simp add: process_def drain_empty)
next
  case (Cons ev q)
  show ?thesis
  proof (cases ev)
    case (RecvFailure n)
    with assms Cons have "drain c s = (SocketError n, s\<lparr>sock := (sock s)\<lparr>inbox := q\<rparr>\<rparr>)"
      by (simp add: drain_failure)
    with Cons show ?thesis by (simp add: process_def)
  next
    case (Datagram d src)
    with assms Cons process_first [of s d src q c] show ?thesis by simp
  qed
qed


subsection \<open>The configuration\<close>

text \<open>
  C10. No operation changes the local address, the default remote address or the
  response port set at construction, and \<^verbatim>\<open>send\<close>, \<^verbatim>\<open>process\<close> and
  \<^verbatim>\<open>shutdown\<close> leave the handler registry as it is: only \<^verbatim>\<open>add_handler\<close> and
  \<^verbatim>\<open>clear_handlers\<close> write to it.
\<close>

theorem configuration_is_fixed:
  "(local_addr (add_handler a h s) = local_addr s \<and>
    remote_addr (add_handler a h s) = remote_addr s \<and>
    response_port (add_handler a h s) = response_port s) \<and>
   (local_addr (clear_handlers s) = local_addr s \<and>
    remote_addr (clear_handlers s) = remote_addr s \<and>
    response_port (clear_handlers s) = response_port s) \<and>
   (local_addr (snd (send c a ps dest s)) = local_addr s \<and>
    remote_addr (snd (send c a ps dest s)) = remote_addr s \<and>
    response_port (snd (send c a ps dest s)) = response_port s \<and>
    callbacks (snd (send c a ps dest s)) = callbacks s) \<and>
   (local_addr (snd (process c s)) = local_addr s \<and>
    remote_addr (snd (process c s)) = remote_addr s \<and>
    response_port (snd (process c s)) = response_port s \<and>
    callbacks (snd (process c s)) = callbacks s) \<and>
   (local_addr (shutdown s) = local_addr s \<and>
    remote_addr (shutdown s) = remote_addr s \<and>
    response_port (shutdown s) = response_port s \<and>
    callbacks (shutdown s) = callbacks s)"
proof -
  have "local_addr (add_handler a h s) = local_addr s \<and>
        remote_addr (add_handler a h s) = remote_addr s \<and>
        response_port (add_handler a h s) = response_port s"
    by (simp add: add_handler_def)
  moreover have "local_addr (clear_handlers s) = local_addr s \<and>
        remote_addr (clear_handlers s) = remote_addr s \<and>
        response_port (clear_handlers s) = response_port s"
    by (simp add: clear_handlers_def)
  moreover have "local_addr (shutdown s) = local_addr s \<and>
        remote_addr (shutdown s) = remote_addr s \<and>
        response_port (shutdown s) = response_port s \<and>
        callbacks (shutdown s) = callbacks s"
    by (simp add: shutdown_def)
  ultimately show ?thesis
    using send_frame [of c a ps dest s] process_frame [of c s] by blast
qed

subsection \<open>The registry\<close>

text \<open>
  C7. Registering \<open>h1\<close> and then \<open>h2\<close> for one address leaves the server as
  registering \<open>h2\<close> alone does: the lookup gives \<open>h2\<close>, nothing is logged or raised,
  \<^verbatim>\<open>process\<close> behaves the same, and a message for that address is dispatched to
  \<open>h2\<close> only.
\<close>

theorem add_handler_overwrites:
  "add_handler a h2 (add_handler a h1 s) = add_handler a h2 s \<and>
   callbacks (add_handler a h2 (add_handler a h1 s)) a = Some h2 \<and>
   logger (add_handler a h2 (add_handler a h1 s)) = logger s \<and>
   process c (add_handler a h2 (add_handler a h1 s)) = process c (add_handler a h2 s) \<and>
   (decode c data = Inr m \<and> address m = a \<longrightarrow>
      dispatch c data src (add_handler a h2 (add_handler a h1 s)) =
        (case h2 (params m) of
           Inl e \<Rightarrow> (Inl e, add_handler a h2 s)
         | Inr None \<Rightarrow> (Inr (), add_handler a h2 s)
         | Inr (Some rv) \<Rightarrow>
             send c a rv (Some (fst src, response_port s)) (add_handler a h2 s)))"
  by (auto simp: add_handler_def dispatch_def split: sum.splits option.splits)

theorem add_handler_overwrites_witness:
  "add_handler ''/x'' ping (add_handler ''/x'' faulty demo_server) =
     add_handler ''/x'' ping demo_server \<and>
   decode demo_codec ''/x'' = Inr \<lparr>address = ''/x'', params = []\<rparr> \<and>
   dispatch demo_codec ''/x'' (''1.2.3.4'', 55000)
     (add_handler ''/x'' ping (add_handler ''/x'' faulty demo_server)) =
     send demo_codec ''/x'' [StrArg ''pong''] (Some (''1.2.3.4'', 11001))
       (add_handler ''/x'' ping demo_server)"
proof -
  let ?m = "\<lparr>address = ''/x'', params = ([] :: osc_arg list)\<rparr>"
  have d: "decode demo_codec ''/x'' = Inr ?m"
    by (simp add: demo_codec_def)
  have rp: "response_port demo_server = 11001"
    by (simp add: demo_server_def)
  from add_handler_overwrites
    [where a = "''/x''" and ?h2.0 = ping and ?h1.0 = faulty and s = demo_server
       and c = demo_codec and data = "''/x''" and m = ?m and src = "(''1.2.3.4'', 55000)"] d rp
  show ?thesis
    by (auto simp: ping_def)
qed

subsection \<open>The send path\<close>

lemma send_add_arg_raises:
  "add_args c (new_builder c a) ps = Inl e \<Longrightarrow> send c a ps dest s = (Inl e, s)"
  by (simp add: send_def)

text \<open>
  C4. The code at a param without an OSC type: \<^verbatim>\<open>add_arg\<close> is called before the
  try of \<^verbatim>\<open>send\<close>, the codec rejects the param there, and the exception leaves
  \<^verbatim>\<open>send\<close>; nothing is caught and nothing is logged.
\<close>

theorem unsupported_param_leaves_send:
  "add_args demo_codec (new_builder demo_codec ''/x'') [IntArg 1, Opaque] =
     Inl (OtherError ''ValueError'') \<and>
   send demo_codec ''/x'' [IntArg 1, Opaque] None demo_server =
     (Inl (OtherError ''ValueError''), demo_server)"
proof -
  have "add_args demo_codec (new_builder demo_codec ''/x'') [IntArg 1, Opaque] =
     Inl (OtherError ''ValueError'')"
    by (simp add: demo_codec_def)
  then show ?thesis
    by (simp add: send_add_arg_raises)
qed

text \<open>
  C2, as stated, fails twice. When the socket refuses the datagram, \<^verbatim>\<open>sendto\<close>
  raises \<^verbatim>\<open>socket.error\<close>, which the \<^verbatim>\<open>except BuildError\<close> of \<^verbatim>\<open>send\<close>
  does not catch. When a handler raises \<^verbatim>\<open>SystemExit\<close>, the
  \<^verbatim>\<open>except Exception\<close> of \<^verbatim>\<open>process\<close> does not catch it.
\<close>

theorem send_and_process_let_through:
  "fst (send demo_codec ''/x'' [] None unreachable) = Inl (SocketError (Errno 101)) \<and>
   fst (process demo_codec
          (arrive (Datagram ''/quit'' (''1.2.3.4'', 55000))
             (add_handler ''/quit'' exiting demo_server))) =
     Inl (BaseException ''SystemExit'')"
proof -
  have "fst (send demo_codec ''/x'' [] None unreachable) = Inl (SocketError (Errno 101))"
    by (simp add: send_def build_and_transmit_def sendto_def unreachable_def demo_server_def
        demo_codec_def)
  moreover have "fst (process demo_codec
          (arrive (Datagram ''/quit'' (''1.2.3.4'', 55000))
             (add_handler ''/quit'' exiting demo_server))) =
     Inl (BaseException ''SystemExit'')"
    by (simp add: process_def arrive_def add_handler_def demo_server_def drain_datagram
        handle_datagram_def dispatch_def demo_codec_def exiting_def)
  ultimately show ?thesis by (intro conjI)
qed

text \<open>
  C2, amended. (1) \<^verbatim>\<open>process\<close> returns normally whenever neither the codec nor a
  registered handler raises an exception outside \<^verbatim>\<open>Exception\<close>; (2) such an
  exception, raised by the handler of the datagram at the head of the queue, leaves
  \<^verbatim>\<open>process\<close>. For params that the builder takes: (3) when \<^verbatim>\<open>build\<close> raises
  \<^verbatim>\<open>BuildError\<close>, \<^verbatim>\<open>send\<close> returns normally, having logged it and nothing
  else; (4) when \<^verbatim>\<open>build\<close> returns a datagram, \<^verbatim>\<open>send\<close> does what
  \<^verbatim>\<open>sendto\<close> does: it raises the socket error of a closed socket or of a refused
  datagram, and otherwise transmits and returns normally. (5) Construction raises exactly
  when the socket cannot be created or bound.
\<close>

theorem process_and_send_propagation:
  "((\<forall>d x. decode c d \<noteq> Inl (BaseException x)) \<and>
    (\<forall>b p x. add_arg c b p \<noteq> Inl (BaseException x)) \<and>
    (\<forall>b x. build c b \<noteq> Inl (BaseException x)) \<and>
    (\<forall>h\<in>ran (callbacks s). \<forall>ps x. h ps \<noteq> Inl (BaseException x)) \<longrightarrow>
      fst (process c s) = Inr ()) \<and>
   (\<not> closed (sock s) \<and> inbox (sock s) = Datagram data src # q \<and> decode c data = Inr m \<and>
    callbacks s (address m) = Some h \<and> h (params m) = Inl (BaseException x) \<longrightarrow>
      process c s = (Inl (BaseException x), s\<lparr>sock := (sock s)\<lparr>inbox := q\<rparr>\<rparr>)) \<and>
   (add_args c (new_builder c a) ps = Inr b \<and> build c b = Inl BuildError \<longrightarrow>
      send c a ps dest s = (Inr (), s\<lparr>logger := logger s @ [BuildErrorLog]\<rparr>)) \<and>
   (add_args c (new_builder c a) ps = Inr b \<and> build c b = Inr dgram \<longrightarrow>
      send c a ps dest s =
        (let dst = (case dest of None \<Rightarrow> remote_addr s | Some r \<Rightarrow> r)
         in if closed (sock s) then (Inl (SocketError EBADF), s)
            else case send_fault (sock s) dgram dst of
                   Some n \<Rightarrow> (Inl (SocketError n), s)
                 | None \<Rightarrow>
                     (Inr (), s\<lparr>sock := (sock s)\<lparr>outbox := outbox (sock s) @ [(dgram, dst)]\<rparr>\<rparr>))) \<and>
   ((init sf bf net la ra :: exn + 'a server) = Inl e) =
     ((\<exists>n. sf = Some n \<and> e = SocketError n) \<or>
      (sf = None \<and> (snd la < 0 \<or> 65535 < snd la) \<and> e = OtherError ''OverflowError'') \<or>
      (sf = None \<and> 0 \<le> snd la \<and> snd la \<le> 65535 \<and> (\<exists>n. bf la = Some n \<and> e = SocketError n)))"
proof -
  have returns: "fst (process c s) = Inr ()"
    if "\<forall>d x. decode c d \<noteq> Inl (BaseException x)"
      and "\<forall>b p x. add_arg c b p \<noteq> Inl (BaseException x)"
      and "\<forall>b x. build c b \<noteq> Inl (BaseException x)"
      and "\<forall>h\<in>ran (callbacks s). \<forall>ps x. h ps \<noteq> Inl (BaseException x)"
  proof -
    obtain e s' where r: "drain c s = (e, s')" by (cases "drain c s")
    have "fst (drain c s) \<noteq> BaseException y" for y
      by (rule drain_exception) (use that in auto)
    with r have "\<forall>y. e \<noteq> BaseException y" by simp
    with r show ?thesis by (cases e) (simp_all add: process_def)
  qed
  have escapes: "process c s = (Inl (BaseException x), s\<lparr>sock := (sock s)\<lparr>inbox := q\<rparr>\<rparr>)"
    if "\<not> closed (sock s)" and "inbox (sock s) = Datagram data src # q"
      and "decode c data = Inr m" and "callbacks s (address m) = Some h"
      and "h (params m) = Inl (BaseException x)"
  proof -
    let ?s = "s\<lparr>sock := (sock s)\<lparr>inbox := q\<rparr>\<rparr>"
    have "handle_datagram c data src ?s = (Inl (BaseException x), ?s)"
      using that(3,4,5) by (simp add: handle_datagram_def dispatch_def)
    from drain_stops [OF that(1,2) this] show ?thesis
      by (simp add: process_def)
  qed
  have contained: "send c a ps dest s = (Inr (), s\<lparr>logger := logger s @ [BuildErrorLog]\<rparr>)"
    if "add_args c (new_builder c a) ps = Inr b" and "build c b = Inl BuildError"
    using that by (simp add: send_def build_and_transmit_def)
  have transmits: "send c a ps dest s =
        (let dst = (case dest of None \<Rightarrow> remote_addr s | Some r \<Rightarrow> r)
         in if closed (sock s) then (Inl (SocketError EBADF), s)
            else case send_fault (sock s) dgram dst of
                   Some n \<Rightarrow> (Inl (SocketError n), s)
                 | None \<Rightarrow>
                     (Inr (), s\<lparr>sock := (sock s)\<lparr>outbox := outbox (sock s) @ [(dgram, dst)]\<rparr>\<rparr>))"
    if "add_args c (new_builder c a) ps = Inr b" and "build c b = Inr dgram"
    using that
    by (simp add: send_def build_and_transmit_def sendto_def Let_def split: option.splits)
  have construction: "((init sf bf net la ra :: exn + 'a server) = Inl e) =
     ((\<exists>n. sf = Some n \<and> e = SocketError n) \<or>
      (sf = None \<and> (snd la < 0 \<or> 65535 < snd la) \<and> e = OtherError ''OverflowError'') \<or>
      (sf = None \<and> 0 \<le> snd la \<and> snd la \<le> 65535 \<and> (\<exists>n. bf la = Some n \<and> e = SocketError n)))"
    by (auto simp: init_def split: option.splits)
  from returns escapes contained transmits construction show ?thesis
    by (intro conjI impI) (elim conjE; assumption)+
qed

theorem process_and_send_propagation_witness:
  "fst (process demo_codec two_queued) = Inr () \<and>
   exiting [] = Inl (BaseException ''SystemExit'') \<and>
   process demo_codec
     (arrive (Datagram ''/quit'' (''1.2.3.4'', 55000))
        (add_handler ''/quit'' exiting demo_server)) =
     (Inl (BaseException ''SystemExit''), add_handler ''/quit'' exiting demo_server) \<and>
   build demo_codec ([], []) = Inl BuildError \<and>
   send demo_codec [] [] None demo_server =
     (Inr (), demo_server\<lparr>logger := [Starting (''0.0.0.0'', 11000) 11001, BuildErrorLog]\<rparr>) \<and>
   build demo_codec (''/x'', [IntArg 1]) = Inr ''/x,i'' \<and>
   send demo_codec ''/x'' [IntArg 1] (Some (''10.0.0.1'', 9000)) unreachable =
     (Inl (SocketError (Errno 101)), unreachable) \<and>
   (init None (\<lambda>la. Some (Errno 98)) (\<lambda>d dst. None) (''0.0.0.0'', 11000) (''127.0.0.1'', 11001)
      :: exn + osc_arg server) = Inl (SocketError (Errno 98))"
proof -
  let ?quit = "arrive (Datagram ''/quit'' (''1.2.3.4'', 55000))
        (add_handler ''/quit'' exiting demo_server)"
  let ?m = "\<lparr>address = ''/quit'', params = ([] :: osc_arg list)\<rparr>"
  note batch = process_and_send_propagation
    [where c = demo_codec and s = two_queued, THEN conjunct1]
  note quit = process_and_send_propagation
    [where c = demo_codec and s = ?quit and data = "''/quit''" and src = "(''1.2.3.4'', 55000)"
       and q = "[]" and m = ?m and h = exiting and x = "''SystemExit''",
     THEN conjunct2, THEN conjunct1]
  note contained = process_and_send_propagation
    [where c = demo_codec and s = demo_server and a = "[]" and ps = "[]"
       and b = "([], [])" and dest = None,
     THEN conjunct2, THEN conjunct2, THEN conjunct1]
  note refused = process_and_send_propagation
    [where c = demo_codec and s = unreachable and a = "''/x''" and ps = "[IntArg 1]"
       and b = "(''/x'', [IntArg 1])" and dgram = "''/x,i''"
       and dest = "Some (''10.0.0.1'', 9000)",
     THEN conjunct2, THEN conjunct2, THEN conjunct2, THEN conjunct1]
  note construction = process_and_send_propagation
    [where sf = None and bf = "\<lambda>la. Some (Errno 98)" and net = "\<lambda>d dst. None"
       and la = "(''0.0.0.0'', 11000)" and ra = "(''127.0.0.1'', 11001)"
       and e = "SocketError (Errno 98)",
     THEN conjunct2, THEN conjunct2, THEN conjunct2, THEN conjunct2]
  have codec: "(\<forall>d x. decode demo_codec d \<noteq> Inl (BaseException x)) \<and>
      (\<forall>b p x. add_arg demo_codec b p \<noteq> Inl (BaseException x)) \<and>
      (\<forall>b x. build demo_codec b \<noteq> Inl (BaseException x))"
    by (auto simp: demo_codec_def split: list.splits if_splits)
  have handlers: "\<forall>h\<in>ran (callbacks two_queued). \<forall>ps x. h ps \<noteq> Inl (BaseException x)"
    by (auto simp: two_queued_def arrive_def add_handler_def demo_server_def ran_def
          faulty_def ping_def split: if_splits)
  have "fst (process demo_codec two_queued) = Inr ()"
    using batch codec handlers by blast
  moreover have "exiting [] = Inl (BaseException ''SystemExit'')"
    by (simp add: exiting_def)
  moreover have "process demo_codec ?quit =
      (Inl (BaseException ''SystemExit''), add_handler ''/quit'' exiting demo_server)"
  proof -
    have "process demo_codec ?quit =
        (Inl (BaseException ''SystemExit''), ?quit\<lparr>sock := (sock ?quit)\<lparr>inbox := []\<rparr>\<rparr>)"
      by (rule quit [rule_format])
        (simp add: arrive_def add_handler_def demo_server_def demo_codec_def exiting_def)
    then show ?thesis
      by (simp add: arrive_def add_handler_def demo_server_def)
  qed
  moreover have "build demo_codec ([], []) = Inl BuildError"
    by (simp add: demo_codec_def)
  moreover have "send demo_codec [] [] None demo_server =
     (Inr (), demo_server\<lparr>logger := [Starting (''0.0.0.0'', 11000) 11001, BuildErrorLog]\<rparr>)"
  proof -
    have "send demo_codec [] [] None demo_server =
        (Inr (), demo_server\<lparr>logger := logger demo_server @ [BuildErrorLog]\<rparr>)"
      by (rule contained [rule_format]) (simp add: demo_codec_def)
    then show ?thesis by (simp add: demo_server_def)
  qed
  moreover have "build demo_codec (''/x'', [IntArg 1]) = Inr ''/x,i''"
    by (simp add: demo_codec_def)
  moreover have "send demo_codec ''/x'' [IntArg 1] (Some (''10.0.0.1'', 9000)) unreachable =
     (Inl (SocketError (Errno 101)), unreachable)"
  proof -
    have "add_args demo_codec (new_builder demo_codec ''/x'') [IntArg 1] =
        Inr (''/x'', [IntArg 1]) \<and> build demo_codec (''/x'', [IntArg 1]) = Inr ''/x,i''"
      by (simp add: demo_codec_def)
    from refused [rule_format, OF this] show ?thesis
      by (simp add: unreachable_def demo_server_def)
  qed
  moreover have "(init None (\<lambda>la. Some (Errno 98)) (\<lambda>d dst. None) (''0.0.0.0'', 11000)
      (''127.0.0.1'', 11001) :: exn + osc_arg server) = Inl (SocketError (Errno 98))"
    by (subst construction) simp
  ultimately show ?thesis by (intro conjI)
qed


subsection \<open>Replies\<close>

text \<open>
  C3. A datagram from \<open>(host, sport)\<close> whose handler returns \<open>rv\<close>: the reply is
  the encoding of the inbound address with \<open>rv\<close>, it is the first datagram that this
  call of \<^verbatim>\<open>process\<close> transmits, and it goes to \<open>(host, response_port)\<close>;
  whatever else the call transmits goes to the response port too. The source port
  \<open>sport\<close> has no influence on how the datagram is handled.
\<close>

theorem reply_goes_to_response_port:
  assumes "\<not> closed (sock s)" and "inbox (sock s) = Datagram data (host, sport) # q"
    and "decode c data = Inr m" and "callbacks s (address m) = Some h"
    and "h (params m) = Inr (Some rv)"
    and "encode c (address m) rv = Inr d"
    and "send_fault (sock s) d (host, response_port s) = None"
  shows "(\<exists>more. outbox (sock (snd (process c s))) =
                  outbox (sock s) @ (d, (host, response_port s)) # more \<and>
                (\<forall>x\<in>set more. snd (snd x) = response_port s)) \<and>
         handle_datagram c data (host, sport) s = handle_datagram c data (host, sport') s"
proof -
  let ?s = "s\<lparr>sock := (sock s)\<lparr>inbox := q\<rparr>\<rparr>"
  obtain r s1 where h: "handle_datagram c data (host, sport) ?s = (r, s1)"
    by (cases "handle_datagram c data (host, sport) ?s")
  have "outbox (sock (snd (handle_datagram c data (host, sport) ?s))) =
        outbox (sock s) @ [(d, (host, response_port s))]"
    using handle_datagram_outbox [of c data m ?s h "Some rv" "(host, sport)"] assms by simp
  with h have out1: "outbox (sock s1) = outbox (sock s) @ [(d, (host, response_port s))]"
    by simp
  have rp: "response_port s1 = response_port s"
    using handle_datagram_frame [of c data "(host, sport)" ?s] h by simp
  have "\<exists>more. outbox (sock (snd (process c s))) = outbox (sock s1) @ more \<and>
          (\<forall>x\<in>set more. snd (snd x) = response_port s)"
  proof (cases r)
    case (Inl e)
    with h have "drain c s = (e, s1)"
      using drain_stops [OF assms(1,2)] by simp
    then have "outbox (sock (snd (process c s))) = outbox (sock s1)"
      by (cases e) (simp_all add: process_def)
    then show ?thesis by simp
  next
    case (Inr u)
    with h have "process c s = process c s1"
      using process_continues [OF assms(1,2)] by simp
    with process_port [of c s1] rp show ?thesis by simp
  qed
  with out1 show ?thesis
    by (simp add: handle_datagram_source_port [of c data host sport s sport'])
qed

theorem reply_goes_to_response_port_witness:
  "decode demo_codec ''/test'' = Inr \<lparr>address = ''/test'', params = []\<rparr> \<and>
   one_two [] = Inr (Some [IntArg 1, IntArg 2]) \<and>
   encode demo_codec ''/test'' [IntArg 1, IntArg 2] = Inr ''/test,ii'' \<and>
   (\<exists>more. outbox (sock (snd (process demo_codec
       (arrive (Datagram ''/test'' (''1.2.3.4'', 55000))
          (add_handler ''/test'' one_two demo_server))))) =
     (''/test,ii'', (''1.2.3.4'', 11001)) # more)"
proof -
  let ?s = "arrive (Datagram ''/test'' (''1.2.3.4'', 55000))
          (add_handler ''/test'' one_two demo_server)"
  let ?m = "\<lparr>address = ''/test'', params = ([] :: osc_arg list)\<rparr>"
  have a: "\<not> closed (sock ?s)"
    by (simp add: arrive_def add_handler_def demo_server_def)
  have b: "inbox (sock ?s) = Datagram ''/test'' (''1.2.3.4'', 55000) # []"
    by (simp add: arrive_def add_handler_def demo_server_def)
  have c: "decode demo_codec ''/test'' = Inr ?m"
    by (simp add: demo_codec_def)
  have d: "callbacks ?s (address ?m) = Some one_two"
    by (simp add: arrive_def add_handler_def)
  have e: "one_two (params ?m) = Inr (Some [IntArg 1, IntArg 2])"
    by (simp add: one_two_def)
  have f: "encode demo_codec (address ?m) [IntArg 1, IntArg 2] = Inr ''/test,ii''"
    by (simp add: encode_def demo_codec_def)
  have g: "send_fault (sock ?s) ''/test,ii'' (''1.2.3.4'', response_port ?s) = None"
    by (simp add: arrive_def add_handler_def demo_server_def)
  have rp: "response_port ?s = 11001" and ob: "outbox (sock ?s) = []"
    by (simp_all add: arrive_def add_handler_def demo_server_def)
  from reply_goes_to_response_port [OF a b c d e f g] rp ob
  have "\<exists>more. outbox (sock (snd (process demo_codec ?s))) =
     (''/test,ii'', (''1.2.3.4'', 11001)) # more"
    by auto
  with c e f show ?thesis by simp
qed

text \<open>
  C5, as stated, fails: a handler that returns the empty sequence is answered, with a
  message that has the address and no params. The source tests \<^verbatim>\<open>rv is not None\<close>
  only.
\<close>

theorem empty_result_is_answered:
  "empty_reply [] = Inr (Some []) \<and>
   outbox (sock (snd (process demo_codec
     (arrive (Datagram ''/e'' (''1.2.3.4'', 55000))
        (add_handler ''/e'' empty_reply demo_server))))) =
   [(''/e,'', (''1.2.3.4'', 11001))]"
  by (simp add: process_single arrive_def add_handler_def demo_server_def
      handle_datagram_def dispatch_def demo_codec_def empty_reply_def
      send_def build_and_transmit_def sendto_def)

text \<open>
  C5, amended. With one datagram queued whose handler returns \<open>r\<close>, \<^verbatim>\<open>process\<close>
  transmits a reply exactly when \<open>r\<close> is not \<^verbatim>\<open>None\<close> (the empty sequence
  included), the reply encodes and the socket takes it; the reply is then the only
  datagram transmitted. A handler that returns \<^verbatim>\<open>None\<close> is not answered.
\<close>

theorem reply_iff_result_not_none:
  assumes "\<not> closed (sock s)" and "inbox (sock s) = [Datagram data src]"
    and "decode c data = Inr m" and "callbacks s (address m) = Some h"
    and "h (params m) = Inr r"
  shows "outbox (sock (snd (process c s))) =
           outbox (sock s) @
           (case r of
              None \<Rightarrow> []
            | Some rv \<Rightarrow>
                (case encode c (address m) rv of
                   Inl e \<Rightarrow> []
                 | Inr d \<Rightarrow>
                     if send_fault (sock s) d (fst src, response_port s) = None
                     then [(d, (fst src, response_port s))] else [])) \<and>
         (outbox (sock (snd (process c s))) \<noteq> outbox (sock s)) =
           (\<exists>rv d. r = Some rv \<and> encode c (address m) rv = Inr d \<and>
                   send_fault (sock s) d (fst src, response_port s) = None)"
proof -
  let ?s = "s\<lparr>sock := (sock s)\<lparr>inbox := []\<rparr>\<rparr>"
  have "outbox (sock (snd (process c s))) =
        outbox (sock (snd (handle_datagram c data src ?s)))"
    by (rule process_single [OF assms(1,2)])
  also have "\<dots> = outbox (sock s) @
           (case r of
              None \<Rightarrow> []
            | Some rv \<Rightarrow>
                (case encode c (address m) rv of
                   Inl e \<Rightarrow> []
                 | Inr d \<Rightarrow>
                     if send_fault (sock s) d (fst src, response_port s) = None
                     then [(d, (fst src, response_port s))] else []))"
    using handle_datagram_outbox [of c data m ?s h r src] assms
    by (auto split: option.splits sum.splits)
  finally show ?thesis
    by (auto split: option.splits sum.splits)
qed

theorem reply_iff_result_not_none_witness:
  "decode demo_codec ''/q'' = Inr \<lparr>address = ''/q'', params = []\<rparr> \<and>
   quiet [] = Inr None \<and>
   outbox (sock (snd (process demo_codec
     (arrive (Datagram ''/q'' (''1.2.3.4'', 55000))
        (add_handler ''/q'' quiet demo_server))))) = []"
proof -
  let ?s = "arrive (Datagram ''/q'' (''1.2.3.4'', 55000))
          (add_handler ''/q'' quiet demo_server)"
  let ?m = "\<lparr>address = ''/q'', params = ([] :: osc_arg list)\<rparr>"
  have a: "\<not> closed (sock ?s)"
    by (simp add: arrive_def add_handler_def demo_server_def)
  have b: "inbox (sock ?s) = [Datagram ''/q'' (''1.2.3.4'', 55000)]"
    by (simp add: arrive_def add_handler_def demo_server_def)
  have c: "decode demo_codec ''/q'' = Inr ?m"
    by (simp add: demo_codec_def)
  have d: "callbacks ?s (address ?m) = Some quiet"
    by (simp add: arrive_def add_handler_def)
  have e: "quiet (params ?m) = Inr None"
    by (simp add: quiet_def)
  have ob: "outbox (sock ?s) = []"
    by (simp add: arrive_def add_handler_def demo_server_def)
  from reply_iff_result_not_none [OF a b c d e] ob c e show ?thesis
    by simp
qed

subsection \<open>Datagrams that are dropped\<close>

text \<open>
  C6. A datagram whose decoding raises \<^verbatim>\<open>ParseError\<close> is logged and dropped, and the
  pass goes on. (1) Its turn of the loop returns normally and changes the log only.
  (2) When it is the only datagram queued, \<^verbatim>\<open>process\<close> returns normally with the
  queue empty, one more log entry and nothing else changed: no reply, the registry as it
  was. For any queue: (3) the log of the result of \<^verbatim>\<open>process\<close> starts with the old
  log followed by the entry; (4) the registry of the result is the old one; (5) the next
  event of the queue has been received as well; (6) when the next event is a datagram,
  it has been handed to its turn of the loop, from the server that carries the entry:
  the log and the outbox of the result extend what that turn leaves; (7) the result is
  that of \<^verbatim>\<open>process\<close> on the rest of the queue from the server that carries the
  entry.
\<close>

theorem parse_error_is_dropped:
  assumes "\<not> closed (sock s)" and "inbox (sock s) = Datagram data src # q"
    and "decode c data = Inl ParseError"
  shows "handle_datagram c data src t = (Inr (), t\<lparr>logger := logger t @ [ParseErrorLog]\<rparr>) \<and>
         (q = [] \<longrightarrow>
            process c s =
              (Inr (), s\<lparr>sock := (sock s)\<lparr>inbox := []\<rparr>,
                         logger := logger s @ [ParseErrorLog]\<rparr>)) \<and>
         prefix (logger s @ [ParseErrorLog]) (logger (snd (process c s))) \<and>
         callbacks (snd (process c s)) = callbacks s \<and>
         suffix (inbox (sock (snd (process c s)))) (tl q) \<and>
         (q = Datagram d2 src2 # q2 \<longrightarrow>
            prefix
              (logger (snd (handle_datagram c d2 src2
                 (s\<lparr>sock := (sock s)\<lparr>inbox := q2\<rparr>, logger := logger s @ [ParseErrorLog]\<rparr>))))
              (logger (snd (process c s))) \<and>
            prefix
              (outbox (sock (snd (handle_datagram c d2 src2
                 (s\<lparr>sock := (sock s)\<lparr>inbox := q2\<rparr>, logger := logger s @ [ParseErrorLog]\<rparr>)))))
              (outbox (sock (snd (process c s))))) \<and>
         process c s =
           process c (s\<lparr>sock := (sock s)\<lparr>inbox := q\<rparr>, logger := logger s @ [ParseErrorLog]\<rparr>)"
proof -
  let ?s1 = "s\<lparr>sock := (sock s)\<lparr>inbox := q\<rparr>, logger := logger s @ [ParseErrorLog]\<rparr>"
  have one: "handle_datagram c data src t = (Inr (), t\<lparr>logger := logger t @ [ParseErrorLog]\<rparr>)"
    for t :: "'a server"
    using assms(3) by (simp add: handle_datagram_def dispatch_def)
  have rest: "process c s = process c ?s1"
    using process_continues [OF assms(1,2), of c "()" ?s1] by (simp add: one)
  have open1: "\<not> closed (sock ?s1)" and queue1: "inbox (sock ?s1) = q"
    using assms(1) by simp_all
  have single: "process c s =
      (Inr (), s\<lparr>sock := (sock s)\<lparr>inbox := []\<rparr>, logger := logger s @ [ParseErrorLog]\<rparr>)"
    if "q = []"
    using that rest open1 by (simp add: process_def drain_empty)
  have log: "prefix (logger s @ [ParseErrorLog]) (logger (snd (process c s)))"
    using process_grows [of ?s1 c] rest by simp
  have registry: "callbacks (snd (process c s)) = callbacks s"
    using process_frame [of c s] by simp
  have popped: "suffix (inbox (sock (snd (process c s)))) (tl q)"
    using process_pops [OF open1, of c] rest by simp
  have next_turn: "prefix
        (logger (snd (handle_datagram c d2 src2
           (s\<lparr>sock := (sock s)\<lparr>inbox := q2\<rparr>, logger := logger s @ [ParseErrorLog]\<rparr>))))
        (logger (snd (process c s))) \<and>
      prefix
        (outbox (sock (snd (handle_datagram c d2 src2
           (s\<lparr>sock := (sock s)\<lparr>inbox := q2\<rparr>, logger := logger s @ [ParseErrorLog]\<rparr>)))))
        (outbox (sock (snd (process c s))))"
    if "q = Datagram d2 src2 # q2"
  proof -
    have q1: "inbox (sock ?s1) = Datagram d2 src2 # q2"
      using that by simp
    have eq: "?s1\<lparr>sock := (sock ?s1)\<lparr>inbox := q2\<rparr>\<rparr> =
        s\<lparr>sock := (sock s)\<lparr>inbox := q2\<rparr>, logger := logger s @ [ParseErrorLog]\<rparr>"
      by simp
    show ?thesis
      using process_first [OF open1 q1, of c] unfolding eq rest by blast
  qed
  from one single log registry popped next_turn rest show ?thesis
    by (intro conjI impI) blast+
qed

theorem parse_error_is_dropped_witness:
  "decode demo_codec ''ping'' = Inl ParseError \<and>
   process demo_codec (arrive (Datagram ''ping'' (''1.2.3.4'', 55000)) demo_server) =
     (Inr (), demo_server\<lparr>logger := [Starting (''0.0.0.0'', 11000) 11001, ParseErrorLog]\<rparr>) \<and>
   prefix [Starting (''0.0.0.0'', 11000) 11001, ParseErrorLog]
     (logger (snd (process demo_codec
        (arrive (Datagram ''/p'' (''1.2.3.4'', 55000))
           (arrive (Datagram ''ping'' (''1.2.3.4'', 55000))
              (add_handler ''/p'' ping demo_server)))))) \<and>
   inbox (sock (snd (process demo_codec
        (arrive (Datagram ''/p'' (''1.2.3.4'', 55000))
           (arrive (Datagram ''ping'' (''1.2.3.4'', 55000))
              (add_handler ''/p'' ping demo_server)))))) = [] \<and>
   prefix [(''/p,s'', (''1.2.3.4'', 11001))]
     (outbox (sock (snd (process demo_codec
        (arrive (Datagram ''/p'' (''1.2.3.4'', 55000))
           (arrive (Datagram ''ping'' (''1.2.3.4'', 55000))
              (add_handler ''/p'' ping demo_server)))))))"
proof -
  let ?one = "arrive (Datagram ''ping'' (''1.2.3.4'', 55000)) demo_server"
  let ?two = "arrive (Datagram ''/p'' (''1.2.3.4'', 55000))
        (arrive (Datagram ''ping'' (''1.2.3.4'', 55000)) (add_handler ''/p'' ping demo_server))"
  have bad: "decode demo_codec ''ping'' = Inl ParseError"
    by (simp add: demo_codec_def)
  have open1: "\<not> closed (sock ?one)" and queue1: "inbox (sock ?one) =
      Datagram ''ping'' (''1.2.3.4'', 55000) # []"
    by (simp_all add: arrive_def demo_server_def)
  have open2: "\<not> closed (sock ?two)" and queue2: "inbox (sock ?two) =
      Datagram ''ping'' (''1.2.3.4'', 55000) # [Datagram ''/p'' (''1.2.3.4'', 55000)]"
    by (simp_all add: arrive_def add_handler_def demo_server_def)
  note single = parse_error_is_dropped [OF open1 queue1 bad]
  note batch = parse_error_is_dropped
    [OF open2 queue2 bad,
     where ?d2.0 = "''/p''" and ?src2.0 = "(''1.2.3.4'', 55000)" and ?q2.0 = "[]"]
  have "process demo_codec ?one =
     (Inr (), demo_server\<lparr>logger := [Starting (''0.0.0.0'', 11000) 11001, ParseErrorLog]\<rparr>)"
    using single [THEN conjunct2, THEN conjunct1]
    by (simp add: arrive_def demo_server_def)
  moreover have "prefix [Starting (''0.0.0.0'', 11000) 11001, ParseErrorLog]
      (logger (snd (process demo_codec ?two)))"
    using batch [THEN conjunct2, THEN conjunct2, THEN conjunct1]
    by (simp add: arrive_def add_handler_def demo_server_def)
  moreover have "inbox (sock (snd (process demo_codec ?two))) = []"
    using batch [THEN conjunct2, THEN conjunct2, THEN conjunct2, THEN conjunct2, THEN conjunct1]
    by simp
  moreover have "prefix [(''/p,s'', (''1.2.3.4'', 11001))]
      (outbox (sock (snd (process demo_codec ?two))))"
    using batch [THEN conjunct2, THEN conjunct2, THEN conjunct2, THEN conjunct2,
                 THEN conjunct2, THEN conjunct1]
    by (simp add: arrive_def add_handler_def demo_server_def handle_datagram_def dispatch_def
        demo_codec_def ping_def send_def build_and_transmit_def sendto_def)
  ultimately show ?thesis
    using bad by (intro conjI)
qed

text \<open>
  C8. A datagram that decodes to an address without a handler adds one log entry and
  nothing else, and the pass goes on. (1) Its turn of the loop returns normally and
  changes the log only. (2) When it is the only datagram queued, \<^verbatim>\<open>process\<close>
  returns normally with the queue empty, the entry added and nothing else changed: no
  reply is transmitted. For any queue: (3) the log of the result of \<^verbatim>\<open>process\<close>
  starts with the old log followed by the entry; (4) the next event of the queue has been
  received as well; (5) when the next event is a datagram, it has been handed to its turn
  of the loop, from the server that carries the entry: the log and the outbox of the
  result extend what that turn leaves; (6) the result is that of \<^verbatim>\<open>process\<close> on the
  rest of the queue from the server that carries the entry.
\<close>

theorem unknown_address_is_logged_only:
  assumes "\<not> closed (sock s)" and "inbox (sock s) = Datagram data src # q"
    and "decode c data = Inr m" and "callbacks s (address m) = None"
  shows "handle_datagram c data src s =
           (Inr (), s\<lparr>logger := logger s @ [UnknownAddress (address m)]\<rparr>) \<and>
         (q = [] \<longrightarrow>
            process c s =
              (Inr (), s\<lparr>sock := (sock s)\<lparr>inbox := []\<rparr>,
                         logger := logger s @ [UnknownAddress (address m)]\<rparr>)) \<and>
         prefix (logger s @ [UnknownAddress (address m)]) (logger (snd (process c s))) \<and>
         suffix (inbox (sock (snd (process c s)))) (tl q) \<and>
         (q = Datagram d2 src2 # q2 \<longrightarrow>
            prefix
              (logger (snd (handle_datagram c d2 src2
                 (s\<lparr>sock := (sock s)\<lparr>inbox := q2\<rparr>,
                    logger := logger s @ [UnknownAddress (address m)]\<rparr>))))
              (logger (snd (process c s))) \<and>
            prefix
              (outbox (sock (snd (handle_datagram c d2 src2
                 (s\<lparr>sock := (sock s)\<lparr>inbox := q2\<rparr>,
                    logger := logger s @ [UnknownAddress (address m)]\<rparr>)))))
              (outbox (sock (snd (process c s))))) \<and>
         process c s =
           process c (s\<lparr>sock := (sock s)\<lparr>inbox := q\<rparr>,
                        logger := logger s @ [UnknownAddress (address m)]\<rparr>)"
proof -
  let ?s0 = "s\<lparr>sock := (sock s)\<lparr>inbox := q\<rparr>\<rparr>"
  let ?s1 = "s\<lparr>sock := (sock s)\<lparr>inbox := q\<rparr>,
               logger := logger s @ [UnknownAddress (address m)]\<rparr>"
  have one: "handle_datagram c data src t =
      (Inr (), t\<lparr>logger := logger t @ [UnknownAddress (address m)]\<rparr>)"
    if "callbacks t (address m) = None" for t :: "'a server"
    using assms(3) that by (simp add: handle_datagram_def dispatch_def)
  have "handle_datagram c data src ?s0 = (Inr (), ?s1)"
    using one [of ?s0] assms(4) by simp
  from process_continues [OF assms(1,2) this]
  have rest: "process c s = process c ?s1" .
  have open1: "\<not> closed (sock ?s1)"
    using assms(1) by simp
  have single: "process c s =
      (Inr (), s\<lparr>sock := (sock s)\<lparr>inbox := []\<rparr>,
                 logger := logger s @ [UnknownAddress (address m)]\<rparr>)"
    if "q = []"
    using that rest open1 by (simp add: process_def drain_empty)
  have log: "prefix (logger s @ [UnknownAddress (address m)]) (logger (snd (process c s)))"
    using process_grows [of ?s1 c] rest by simp
  have popped: "suffix (inbox (sock (snd (process c s)))) (tl q)"
    using process_pops [OF open1, of c] rest by simp
  have next_turn: "prefix
        (logger (snd (handle_datagram c d2 src2
           (s\<lparr>sock := (sock s)\<lparr>inbox := q2\<rparr>,
              logger := logger s @ [UnknownAddress (address m)]\<rparr>))))
        (logger (snd (process c s))) \<and>
      prefix
        (outbox (sock (snd (handle_datagram c d2 src2
           (s\<lparr>sock := (sock s)\<lparr>inbox := q2\<rparr>,
              logger := logger s @ [UnknownAddress (address m)]\<rparr>)))))
        (outbox (sock (snd (process c s))))"
    if "q = Datagram d2 src2 # q2"
  proof -
    have q1: "inbox (sock ?s1) = Datagram d2 src2 # q2"
      using that by simp
    have eq: "?s1\<lparr>sock := (sock ?s1)\<lparr>inbox := q2\<rparr>\<rparr> =
        s\<lparr>sock := (sock s)\<lparr>inbox := q2\<rparr>, logger := logger s @ [UnknownAddress (address m)]\<rparr>"
      by simp
    show ?thesis
      using process_first [OF open1 q1, of c] unfolding eq rest by blast
  qed
  from one [OF assms(4)] single log popped next_turn rest show ?thesis
    by (intro conjI impI) blast+
qed

theorem unknown_address_is_logged_only_witness:
  "decode demo_codec ''/nobody'' = Inr \<lparr>address = ''/nobody'', params = []\<rparr> \<and>
   callbacks (add_handler ''/p'' ping demo_server) ''/nobody'' = None \<and>
   process demo_codec (arrive (Datagram ''/nobody'' (''1.2.3.4'', 55000)) demo_server) =
     (Inr (),
      demo_server\<lparr>logger := [Starting (''0.0.0.0'', 11000) 11001, UnknownAddress ''/nobody'']\<rparr>) \<and>
   prefix [Starting (''0.0.0.0'', 11000) 11001, UnknownAddress ''/nobody'']
     (logger (snd (process demo_codec
        (arrive (Datagram ''/p'' (''1.2.3.4'', 55000))
           (arrive (Datagram ''/nobody'' (''1.2.3.4'', 55000))
              (add_handler ''/p'' ping demo_server)))))) \<and>
   inbox (sock (snd (process demo_codec
        (arrive (Datagram ''/p'' (''1.2.3.4'', 55000))
           (arrive (Datagram ''/nobody'' (''1.2.3.4'', 55000))
              (add_handler ''/p'' ping demo_server)))))) = [] \<and>
   prefix [(''/p,s'', (''1.2.3.4'', 11001))]
     (outbox (sock (snd (process demo_codec
        (arrive (Datagram ''/p'' (''1.2.3.4'', 55000))
           (arrive (Datagram ''/nobody'' (''1.2.3.4'', 55000))
              (add_handler ''/p'' ping demo_server)))))))"
proof -
  let ?one = "arrive (Datagram ''/nobody'' (''1.2.3.4'', 55000)) demo_server"
  let ?two = "arrive (Datagram ''/p'' (''1.2.3.4'', 55000))
        (arrive (Datagram ''/nobody'' (''1.2.3.4'', 55000))
           (add_handler ''/p'' ping demo_server))"
  let ?m = "\<lparr>address = ''/nobody'', params = ([] :: osc_arg list)\<rparr>"
  have msg: "decode demo_codec ''/nobody'' = Inr ?m"
    by (simp add: demo_codec_def)
  have open1: "\<not> closed (sock ?one)" and queue1: "inbox (sock ?one) =
      Datagram ''/nobody'' (''1.2.3.4'', 55000) # []"
    and none1: "callbacks ?one (address ?m) = None"
    by (simp_all add: arrive_def demo_server_def)
  have open2: "\<not> closed (sock ?two)" and queue2: "inbox (sock ?two) =
      Datagram ''/nobody'' (''1.2.3.4'', 55000) # [Datagram ''/p'' (''1.2.3.4'', 55000)]"
    and none2: "callbacks ?two (address ?m) = None"
    by (simp_all add: arrive_def add_handler_def demo_server_def)
  have none: "callbacks (add_handler ''/p'' ping demo_server) ''/nobody'' = None"
    by (simp add: add_handler_def demo_server_def)
  note single = unknown_address_is_logged_only [OF open1 queue1 msg none1]
  note batch = unknown_address_is_logged_only
    [OF open2 queue2 msg none2,
     where ?d2.0 = "''/p''" and ?src2.0 = "(''1.2.3.4'', 55000)" and ?q2.0 = "[]"]
  have "process demo_codec ?one =
     (Inr (),
      demo_server\<lparr>logger := [Starting (''0.0.0.0'', 11000) 11001, UnknownAddress ''/nobody'']\<rparr>)"
    using single [THEN conjunct2, THEN conjunct1]
    by (simp add: arrive_def demo_server_def)
  moreover have "prefix [Starting (''0.0.0.0'', 11000) 11001, UnknownAddress ''/nobody'']
      (logger (snd (process demo_codec ?two)))"
    using batch [THEN conjunct2, THEN conjunct2, THEN conjunct1]
    by (simp add: arrive_def add_handler_def demo_server_def)
  moreover have "inbox (sock (snd (process demo_codec ?two))) = []"
    using batch [THEN conjunct2, THEN conjunct2, THEN conjunct2, THEN conjunct1]
    by simp
  moreover have "prefix [(''/p,s'', (''1.2.3.4'', 11001))]
      (outbox (sock (snd (process demo_codec ?two))))"
    using batch [THEN conjunct2, THEN conjunct2, THEN conjunct2, THEN conjunct2, THEN conjunct1]
    by (simp add: arrive_def add_handler_def demo_server_def handle_datagram_def dispatch_def
        demo_codec_def ping_def send_def build_and_transmit_def sendto_def)
  ultimately show ?thesis
    using msg none by (intro conjI)
qed


subsection \<open>Socket errors\<close>

text \<open>
  C9. With nothing queued, \<^verbatim>\<open>recvfrom\<close> signals would-block and \<^verbatim>\<open>process\<close>
  returns normally with the server unchanged, so without a log entry; the same holds for
  a would-block errno met in the queue. Any other socket error of \<^verbatim>\<open>recvfrom\<close> is
  logged, ends the pass with the rest of the queue left on the socket, and
  \<^verbatim>\<open>process\<close> returns normally. In general, whenever a socket error ends the loop
  (raised by \<^verbatim>\<open>recvfrom\<close> or while a reply is transmitted), \<^verbatim>\<open>process\<close>
  returns normally, and logs the error unless its errno is would-block.
\<close>

theorem socket_errors_end_the_drain:
  "(\<not> closed (sock s) \<and> inbox (sock s) = [] \<longrightarrow> process c s = (Inr (), s)) \<and>
   (\<not> closed (sock s) \<and> inbox (sock s) = RecvFailure n # q \<and> (n = EAGAIN \<or> n = EWOULDBLOCK) \<longrightarrow>
      process c s = (Inr (), s\<lparr>sock := (sock s)\<lparr>inbox := q\<rparr>\<rparr>)) \<and>
   (\<not> closed (sock s) \<and> inbox (sock s) = RecvFailure n # q \<and> n \<noteq> EAGAIN \<and> n \<noteq> EWOULDBLOCK \<longrightarrow>
      process c s =
        (Inr (), s\<lparr>sock := (sock s)\<lparr>inbox := q\<rparr>, logger := logger s @ [SocketErrorLog n]\<rparr>)) \<and>
   (drain c s = (SocketError n, s') \<longrightarrow>
      process c s =
        (Inr (), if n = EAGAIN \<or> n = EWOULDBLOCK then s'
                 else s'\<lparr>logger := logger s' @ [SocketErrorLog n]\<rparr>))"
  by (simp add: process_def drain_empty drain_failure)

theorem socket_errors_end_the_drain_witness:
  "drain demo_codec demo_server = (SocketError EAGAIN, demo_server) \<and>
   process demo_codec demo_server = (Inr (), demo_server) \<and>
   process demo_codec
     (arrive (Datagram ''/p'' (''1.2.3.4'', 55000)) (arrive (RecvFailure EWOULDBLOCK) demo_server)) =
     (Inr (), arrive (Datagram ''/p'' (''1.2.3.4'', 55000)) demo_server) \<and>
   process demo_codec
     (arrive (Datagram ''/p'' (''1.2.3.4'', 55000)) (arrive (RecvFailure (Errno 104)) demo_server)) =
     (Inr (), (arrive (Datagram ''/p'' (''1.2.3.4'', 55000)) demo_server)
        \<lparr>logger := [Starting (''0.0.0.0'', 11000) 11001, SocketErrorLog (Errno 104)]\<rparr>)"
proof -
  have "process demo_codec demo_server = (Inr (), demo_server)"
    using socket_errors_end_the_drain [where s = demo_server and c = demo_codec]
    by (simp add: demo_server_def)
  moreover have "process demo_codec
     (arrive (Datagram ''/p'' (''1.2.3.4'', 55000)) (arrive (RecvFailure EWOULDBLOCK) demo_server)) =
     (Inr (), arrive (Datagram ''/p'' (''1.2.3.4'', 55000)) demo_server)"
    using socket_errors_end_the_drain
      [where s = "arrive (Datagram ''/p'' (''1.2.3.4'', 55000))
                    (arrive (RecvFailure EWOULDBLOCK) demo_server)"
         and n = EWOULDBLOCK and q = "[Datagram ''/p'' (''1.2.3.4'', 55000)]"
         and c = demo_codec]
    by (simp add: demo_server_def arrive_def)
  moreover have "process demo_codec
     (arrive (Datagram ''/p'' (''1.2.3.4'', 55000)) (arrive (RecvFailure (Errno 104)) demo_server)) =
     (Inr (), (arrive (Datagram ''/p'' (''1.2.3.4'', 55000)) demo_server)
        \<lparr>logger := [Starting (''0.0.0.0'', 11000) 11001, SocketErrorLog (Errno 104)]\<rparr>)"
    using socket_errors_end_the_drain
      [where s = "arrive (Datagram ''/p'' (''1.2.3.4'', 55000))
                    (arrive (RecvFailure (Errno 104)) demo_server)"
         and n = "Errno 104" and q = "[Datagram ''/p'' (''1.2.3.4'', 55000)]"
         and c = demo_codec]
    by (simp add: demo_server_def arrive_def)
  moreover have "drain demo_codec demo_server = (SocketError EAGAIN, demo_server)"
    by (simp add: drain_empty demo_server_def)
  ultimately show ?thesis by simp
qed

subsection \<open>A handler that raises\<close>

text \<open>
  C1. The code at two queued datagrams, the first with a handler that raises: the
  exception leaves the loop and is logged by the outer handler of \<^verbatim>\<open>process\<close>;
  the second datagram is still on the socket and was not dispatched, and no reply went
  out.
\<close>

theorem handler_fault_ends_the_drain:
  "process demo_codec two_queued =
     (Inr (),
      (add_handler ''/b'' ping (add_handler ''/a'' faulty demo_server))
        \<lparr>sock := (sock demo_server)\<lparr>inbox := [Datagram ''/b'' (''1.2.3.4'', 55000)]\<rparr>,
         logger := [Starting (''0.0.0.0'', 11000) 11001,
                    HandlingErrorLog (OtherError ''ZeroDivisionError'')]\<rparr>)"
  by (simp add: process_def two_queued_def arrive_def add_handler_def demo_server_def
      drain_datagram handle_datagram_def dispatch_def demo_codec_def faulty_def)

end
